theory Spec2Isabelle
  imports Main
begin

section \<open>The guided tour of the dining calculator (component Tutorial)\<close>

text \<open>
  The component \<open>Tutorial\<close> (src/unnamed/part_000) is a React function component. Its
  props \<open>show\<close> and \<open>step\<close> are state of the host, changed through the setters
  \<open>setShow\<close> and \<open>setStep\<close>; \<open>showDetails\<close> and \<open>isNewUser\<close> are state of the
  component. The handlers and effects also write to the page: the \<open>z-index\<close> of the
  registered elements, the inline style of the tooltip, scroll requests and the
  persistent store. The embedding passes both parts explicitly: a record of the React
  state and a record of the page. A JavaScript \<open>TypeError\<close> is the left summand of the
  result.
\<close>

subsection \<open>Data\<close>

datatype error = TypeError

datatype Position = Start | Center | End

record Step =
  title :: string
  description :: string
  position :: Position
  action :: "string option"

text \<open>An element of the page is known by its identity only.\<close>

type_synonym elem = nat

text \<open>
  \<open>tutorialRefs.value\<close> is an array of \<open>HTMLElement | null\<close>: \<open>None\<close> is \<open>null\<close>.
  The catalog \<open>tutorialSteps\<close> and the array of the context are not part of the
  component; every definition takes them as parameters.
\<close>

type_synonym refs = "elem option list"

text \<open>
  Reading an array at an index: outside the array JavaScript yields \<open>undefined\<close>,
  which is \<open>None\<close> here.
\<close>

definition at_index :: "'a list \<Rightarrow> int \<Rightarrow> 'a option" where
  "at_index xs i = (if 0 \<le> i \<and> i < int (length xs) then Some (xs ! nat i) else None)"

text \<open>\<open>xs.slice(0, e)\<close>: a negative end counts from the end of the array.\<close>

definition slice0 :: "'a list \<Rightarrow> int \<Rightarrow> 'a list" where
  "slice0 xs e = take (nat (if e < 0 then int (length xs) + e else e)) xs"

text \<open>The decimal text a template literal gives for an integer.\<close>

definition digit :: "nat \<Rightarrow> char" where
  "digit n = ''0123456789'' ! n"

function digits :: "nat \<Rightarrow> string" where
  "digits n = (if n < 10 then [digit n] else digits (n div 10) @ [digit (n mod 10)])"
  by pat_completeness auto
termination
  by (relation "measure id") auto

declare digits.simps [simp del]

definition string_of_int :: "int \<Rightarrow> string" where
  "string_of_int i = (if i < 0 then CHR ''-'' # digits (nat (- i)) else digits (nat i))"

record TooltipStyle =
  css_position :: string
  css_transform :: string
  css_order :: string

datatype ScrollTarget = TargetDiv elem | TargetTooltip

record ScrollCall =
  target :: ScrollTarget
  behavior :: string
  block :: Position

record Browser =
  zIndex :: "elem \<Rightarrow> string"
  tooltipStyle :: TooltipStyle
  scrollCalls :: "ScrollCall list"
  localStorage :: "string \<rightharpoonup> bool"

record TutorialState =
  step :: int
  showTutorial :: bool
  showDetails :: bool
  isNewUser :: bool

subsection \<open>The persistent flag\<close>

text \<open>
  Modelled from the spec: the hook \<open>usePersistentState\<close> (hooks/usePersistentState) is
  not among the sources. The spec gives the store two operations, \<open>get(key)\<close>, which
  yields the default when the key was never set, and \<open>set(key, bool)\<close>.
\<close>

definition usePersistentState :: "string \<Rightarrow> bool \<Rightarrow> (string \<rightharpoonup> bool) \<Rightarrow> bool" where
  "usePersistentState key dflt store = (case store key of None \<Rightarrow> dflt | Some v \<Rightarrow> v)"

definition setPersistentState :: "string \<Rightarrow> bool \<Rightarrow> (string \<rightharpoonup> bool) \<Rightarrow> (string \<rightharpoonup> bool)" where
  "setPersistentState key v store = store(key \<mapsto> v)"

subsection \<open>The validation gate (lines 58 to 66, 167)\<close>

definition validations :: "bool \<Rightarrow> (string \<times> (unit \<Rightarrow> bool)) list" where
  "validations areDetailsEntered = [(''Meal Plan Info'', \<lambda>_. areDetailsEntered)]"

definition isStepComplete :: "Step list \<Rightarrow> int \<Rightarrow> bool \<Rightarrow> error + bool" where
  "isStepComplete tutorialSteps i areDetailsEntered =
     (case at_index tutorialSteps i of
        None \<Rightarrow> Inl TypeError
      | Some st \<Rightarrow>
          (case find (\<lambda>validation. fst validation = title st) (validations areDetailsEntered) of
             None \<Rightarrow> Inr True
           | Some validation \<Rightarrow> Inr (snd validation ())))"

text \<open>The property \<open>disabled\<close> of the Next/Finish button.\<close>

definition next_disabled :: "Step list \<Rightarrow> int \<Rightarrow> bool \<Rightarrow> error + bool" where
  "next_disabled tutorialSteps i areDetailsEntered =
     (case isStepComplete tutorialSteps i areDetailsEntered of
        Inl e \<Rightarrow> Inl e
      | Inr ok \<Rightarrow> Inr (\<not> ok))"

subsection \<open>Emphasis (lines 68 to 76, 81 to 85)\<close>

text \<open>
  \<open>undefined !== null\<close> holds, so an index outside the array reaches \<open>div.style\<close> and
  throws.
\<close>

definition resetPrevDiv :: "refs \<Rightarrow> int \<Rightarrow> (elem \<Rightarrow> string) \<Rightarrow> error + (elem \<Rightarrow> string)" where
  "resetPrevDiv tutorialRefs i z =
     (case at_index tutorialRefs i of
        None \<Rightarrow> Inl TypeError
      | Some None \<Rightarrow> Inr z
      | Some (Some d) \<Rightarrow> Inr (z(d := ''0'')))"

text \<open>Lines 81 to 85: the local \<open>div\<close> and the new \<open>z-index\<close> of the elements.\<close>

definition emphasize :: "refs \<Rightarrow> int \<Rightarrow> (elem \<Rightarrow> string) \<Rightarrow> error + (elem option \<times> (elem \<Rightarrow> string))" where
  "emphasize tutorialRefs i z =
     (case at_index tutorialRefs i of
        None \<Rightarrow> Inl TypeError
      | Some None \<Rightarrow> Inr (None, z)
      | Some (Some d) \<Rightarrow> Inr (Some d, z(d := ''50'')))"

subsection \<open>Position of the tooltip (lines 78 to 108)\<close>

text \<open>Lines 90 to 94, the number written to \<open>tooltip.style.order\<close>.\<close>

definition inlineOrder :: "Step list \<Rightarrow> int \<Rightarrow> int" where
  "inlineOrder tutorialSteps i =
     1 + i - foldl (\<lambda>p c. p + (if position c = Center then 1 else 0)) 0 (slice0 tutorialSteps i)"

text \<open>Lines 96 to 102, the receiver and the argument of \<open>scrollIntoView\<close>.\<close>

definition scrollCall :: "elem option \<Rightarrow> Position \<Rightarrow> ScrollCall" where
  "scrollCall d pos =
     \<lparr>target = (case d of
                  Some e \<Rightarrow> if pos = End then TargetDiv e else TargetTooltip
                | None \<Rightarrow> TargetTooltip),
      behavior = ''smooth'', block = pos\<rparr>"

definition positionEffect :: "Step list \<Rightarrow> refs \<Rightarrow> int \<Rightarrow> Browser \<Rightarrow> error + Browser" where
  "positionEffect tutorialSteps tutorialRefs i b =
     (case at_index tutorialSteps i of
        None \<Rightarrow> Inl TypeError
      | Some st \<Rightarrow>
          (case emphasize tutorialRefs i (zIndex b) of
             Inl e \<Rightarrow> Inl e
           | Inr (d, z) \<Rightarrow>
               if position st \<noteq> Center then
                 Inr (b\<lparr>zIndex := z,
                        tooltipStyle := (tooltipStyle b)\<lparr>css_position := ''static'',
                          css_transform := '''',
                          css_order := string_of_int (inlineOrder tutorialSteps i)\<rparr>,
                        scrollCalls := scrollCalls b @ [scrollCall d (position st)]\<rparr>)
               else
                 Inr (b\<lparr>zIndex := z,
                        tooltipStyle := (tooltipStyle b)\<lparr>css_position := ''absolute'',
                          css_transform := ''translate(-50%, -50%)''\<rparr>,
                        scrollCalls := scrollCalls b @
                          [\<lparr>target = TargetTooltip, behavior = ''smooth'', block = Center\<rparr>]\<rparr>)))"

subsection \<open>The other effects (lines 49 to 54, 110 to 112)\<close>

text \<open>
  The first effect: the result holds the state the next render will see, and the
  store after \<open>setIsNewUser(false)\<close>.
\<close>

definition autoShowEffect :: "TutorialState \<Rightarrow> Browser \<Rightarrow> TutorialState \<times> Browser" where
  "autoShowEffect s b =
     (if isNewUser s then
        (s\<lparr>showTutorial := True, isNewUser := False\<rparr>,
         b\<lparr>localStorage := setPersistentState ''isNewUser'' False (localStorage b)\<rparr>)
      else (s, b))"

definition hideEffect :: "refs \<Rightarrow> TutorialState \<Rightarrow> Browser \<Rightarrow> error + Browser" where
  "hideEffect tutorialRefs s b =
     (if \<not> showTutorial s then
        (case resetPrevDiv tutorialRefs (step s) (zIndex b) of
           Inl e \<Rightarrow> Inl e
         | Inr z \<Rightarrow> Inr (b\<lparr>zIndex := z\<rparr>))
      else Inr b)"

subsection \<open>The handlers (lines 130, 148, 159 to 162, 168 to 173)\<close>

definition close_onClick :: "TutorialState \<Rightarrow> TutorialState" where
  "close_onClick s = s\<lparr>showTutorial := False\<rparr>"

definition details_onClick :: "TutorialState \<Rightarrow> TutorialState" where
  "details_onClick s = s\<lparr>showDetails := \<not> showDetails s\<rparr>"

definition previous_onClick :: "refs \<Rightarrow> TutorialState \<Rightarrow> Browser \<Rightarrow> error + (TutorialState \<times> Browser)" where
  "previous_onClick tutorialRefs s b =
     (case resetPrevDiv tutorialRefs (step s) (zIndex b) of
        Inl e \<Rightarrow> Inl e
      | Inr z \<Rightarrow>
          Inr (if step s \<noteq> 0 then s\<lparr>step := step s - 1\<rparr> else s, b\<lparr>zIndex := z\<rparr>))"

definition next_onClick :: "Step list \<Rightarrow> refs \<Rightarrow> TutorialState \<Rightarrow> Browser \<Rightarrow> error + (TutorialState \<times> Browser)" where
  "next_onClick tutorialSteps tutorialRefs s b =
     (case resetPrevDiv tutorialRefs (step s) (zIndex b) of
        Inl e \<Rightarrow> Inl e
      | Inr z \<Rightarrow>
          Inr (if step s + 1 = int (length tutorialSteps) then s\<lparr>showTutorial := False\<rparr>
               else s\<lparr>step := step s + 1\<rparr>,
               b\<lparr>zIndex := z\<rparr>))"

subsection \<open>Rendering and running the effects\<close>

text \<open>
  An effect runs after the first render and after every render in which one of its
  dependencies differs from the previous render. The setters, the callback
  \<open>resetPrevDiv\<close> and the array of the context keep their identity while the
  registry is the same, so the dependencies that change are \<open>isNewUser\<close>, \<open>step\<close>
  and \<open>show\<close>. \<open>prev\<close> is the state of the previous render, \<open>None\<close> at the mount.
\<close>

definition changed :: "(TutorialState \<Rightarrow> 'a) \<Rightarrow> TutorialState option \<Rightarrow> TutorialState \<Rightarrow> bool" where
  "changed f prev s = (case prev of None \<Rightarrow> True | Some p \<Rightarrow> f p \<noteq> f s)"

text \<open>
  One render and its effects, in the order of the source. The render reads
  \<open>tutorialSteps[step].title\<close> (line 43) and throws outside the catalog. The effects
  see the state of this render; what the first effect sets is returned as the state
  of the next render.
\<close>

definition commit :: "Step list \<Rightarrow> refs \<Rightarrow> TutorialState option \<Rightarrow> TutorialState \<Rightarrow> Browser
    \<Rightarrow> error + (TutorialState \<times> Browser)" where
  "commit tutorialSteps tutorialRefs prev s b =
     (case at_index tutorialSteps (step s) of
        None \<Rightarrow> Inl TypeError
      | Some _ \<Rightarrow>
          (case (if changed isNewUser prev s then autoShowEffect s b else (s, b)) of
             (s1, b1) \<Rightarrow>
               (case (if changed step prev s \<or> changed showTutorial prev s
                      then positionEffect tutorialSteps tutorialRefs (step s) b1 else Inr b1) of
                  Inl e \<Rightarrow> Inl e
                | Inr b2 \<Rightarrow>
                    (case (if changed showTutorial prev s \<or> changed step prev s
                           then hideEffect tutorialRefs s b2 else Inr b2) of
                       Inl e \<Rightarrow> Inl e
                     | Inr b3 \<Rightarrow> Inr (s1, b3)))))"

text \<open>React renders again as long as an effect has set a state to a new value.\<close>

function settle :: "Step list \<Rightarrow> refs \<Rightarrow> TutorialState option \<Rightarrow> TutorialState \<Rightarrow> Browser
    \<Rightarrow> error + (TutorialState \<times> Browser)" where
  "settle tutorialSteps tutorialRefs prev s b =
     (case commit tutorialSteps tutorialRefs prev s b of
        Inl e \<Rightarrow> Inl e
      | Inr (s', b') \<Rightarrow>
          if s' = s then Inr (s, b') else settle tutorialSteps tutorialRefs (Some s) s' b')"
  by pat_completeness auto
termination
proof (relation "measure (\<lambda>(tutorialSteps, tutorialRefs, prev, s, b). if isNewUser s then 1 else 0)")
  show "wf (measure (\<lambda>(tutorialSteps, tutorialRefs, prev, s, b). if isNewUser s then 1 else (0::nat)))"
    by simp
next
  fix tutorialSteps :: "Step list" and tutorialRefs :: refs and prev s b x2 s' b'
  assume "commit tutorialSteps tutorialRefs prev s b = Inr x2" and "(s', b') = x2" and "s' \<noteq> s"
  then have "commit tutorialSteps tutorialRefs prev s b = Inr (s', b')"
    by simp
  with \<open>s' \<noteq> s\<close> have "isNewUser s \<and> \<not> isNewUser s'"
    by (auto simp: commit_def autoShowEffect_def
        split: option.splits if_splits sum.splits prod.splits)
  then show "((tutorialSteps, tutorialRefs, Some s, s', b'), (tutorialSteps, tutorialRefs, prev, s, b))
      \<in> measure (\<lambda>(tutorialSteps, tutorialRefs, prev, s, b). if isNewUser s then 1 else 0)"
    by simp
qed

declare settle.simps [simp del]

text \<open>
  After a handler: React renders again when the handler has set a state to a new
  value, and not otherwise.
\<close>

definition rerender :: "Step list \<Rightarrow> refs \<Rightarrow> TutorialState \<Rightarrow> error + (TutorialState \<times> Browser)
    \<Rightarrow> error + (TutorialState \<times> Browser)" where
  "rerender tutorialSteps tutorialRefs s r =
     (case r of
        Inl e \<Rightarrow> Inl e
      | Inr (s', b') \<Rightarrow>
          if s' = s then Inr (s', b') else settle tutorialSteps tutorialRefs (Some s) s' b')"

text \<open>
  The mount: the host gives \<open>show\<close> and \<open>step\<close>, \<open>showDetails\<close> starts false (line 47)
  and \<open>isNewUser\<close> is read from the store with the default true (line 38).
\<close>

definition mount :: "Step list \<Rightarrow> refs \<Rightarrow> bool \<Rightarrow> int \<Rightarrow> Browser \<Rightarrow> error + (TutorialState \<times> Browser)" where
  "mount tutorialSteps tutorialRefs show0 step0 b =
     settle tutorialSteps tutorialRefs None
       \<lparr>step = step0, showTutorial = show0, showDetails = False,
        isNewUser = usePersistentState ''isNewUser'' True (localStorage b)\<rparr> b"

subsection \<open>The registry of the host\<close>

text \<open>
  Modelled from the spec: the code that fills the registry is the host's and is not
  among the sources. The spec gives the host two operations,
  \<open>register(stepIndex, handle)\<close> and \<open>unregister(stepIndex)\<close>, which sets the entry
  absent. The array has one entry for every step; an index outside it leaves the
  registry as it is.
\<close>

definition register :: "int \<Rightarrow> elem \<Rightarrow> refs \<Rightarrow> refs" where
  "register k h tutorialRefs =
     (if 0 \<le> k \<and> k < int (length tutorialRefs) then tutorialRefs[nat k := Some h]
      else tutorialRefs)"

definition unregister :: "int \<Rightarrow> refs \<Rightarrow> refs" where
  "unregister k tutorialRefs =
     (if 0 \<le> k \<and> k < int (length tutorialRefs) then tutorialRefs[nat k := None]
      else tutorialRefs)"

text \<open>
  The render after the registry has changed. The state is the one of the previous
  render, so of the dependencies of the effects only those that come from the
  context can differ: the second effect runs when \<open>tutorialRefs.value\<close> is a new
  array (line 108), the third when \<open>resetPrevDiv\<close> is a new callback, which it is
  when the context gives a new object (lines 75 and 112). Which of the two the
  host's update brings about is not in the sources, so both are parameters; with
  neither, the host has written into the array it had and nothing runs.
\<close>

definition registry_render :: "Step list \<Rightarrow> refs \<Rightarrow> bool \<Rightarrow> bool \<Rightarrow> TutorialState \<Rightarrow> Browser
    \<Rightarrow> error + Browser" where
  "registry_render tutorialSteps tutorialRefs newValue newCallback s b =
     (if newValue \<or> newCallback then
        (case at_index tutorialSteps (step s) of
           None \<Rightarrow> Inl TypeError
         | Some _ \<Rightarrow>
             (case (if newValue then positionEffect tutorialSteps tutorialRefs (step s) b
                    else Inr b) of
                Inl e \<Rightarrow> Inl e
              | Inr b1 \<Rightarrow> if newCallback then hideEffect tutorialRefs s b1 else Inr b1))
      else Inr b)"

subsection \<open>The states the component reaches\<close>

text \<open>
  Modelled from the spec: the host's own code is not among the sources; its
  operation \<open>show()\<close> sets visible to true and does not change the step index.
\<close>

definition host_show :: "TutorialState \<Rightarrow> TutorialState" where
  "host_show s = s\<lparr>showTutorial := True\<rparr>"

text \<open>
  What happens to a mounted component: the host shows the tour, one of the four
  handlers runs, or the host changes the registry. The two booleans of a change of
  the registry are the parameters of the render that follows it.
\<close>

datatype event =
    HostShow
  | ClickClose
  | ClickDetails
  | ClickPrevious
  | ClickNext
  | HostRegister int elem bool bool
  | HostUnregister int bool bool

type_synonym tour = "TutorialState \<times> refs \<times> Browser"

definition with_registry :: "refs \<Rightarrow> error + (TutorialState \<times> Browser) \<Rightarrow> error + tour" where
  "with_registry tutorialRefs r =
     (case r of Inl e \<Rightarrow> Inl e | Inr (s, b) \<Rightarrow> Inr (s, tutorialRefs, b))"

text \<open>
  A handler runs whenever it is called, also where the control that calls it is
  not displayed or is disabled.
\<close>

fun fire :: "Step list \<Rightarrow> event \<Rightarrow> tour \<Rightarrow> error + tour" where
  "fire tutorialSteps HostShow (s, tutorialRefs, b) =
     with_registry tutorialRefs (rerender tutorialSteps tutorialRefs s (Inr (host_show s, b)))"
| "fire tutorialSteps ClickClose (s, tutorialRefs, b) =
     with_registry tutorialRefs (rerender tutorialSteps tutorialRefs s (Inr (close_onClick s, b)))"
| "fire tutorialSteps ClickDetails (s, tutorialRefs, b) =
     with_registry tutorialRefs (rerender tutorialSteps tutorialRefs s (Inr (details_onClick s, b)))"
| "fire tutorialSteps ClickPrevious (s, tutorialRefs, b) =
     with_registry tutorialRefs
       (rerender tutorialSteps tutorialRefs s (previous_onClick tutorialRefs s b))"
| "fire tutorialSteps ClickNext (s, tutorialRefs, b) =
     with_registry tutorialRefs
       (rerender tutorialSteps tutorialRefs s (next_onClick tutorialSteps tutorialRefs s b))"
| "fire tutorialSteps (HostRegister k h newValue newCallback) (s, tutorialRefs, b) =
     (case registry_render tutorialSteps (register k h tutorialRefs) newValue newCallback s b of
        Inl e \<Rightarrow> Inl e
      | Inr b' \<Rightarrow> Inr (s, register k h tutorialRefs, b'))"
| "fire tutorialSteps (HostUnregister k newValue newCallback) (s, tutorialRefs, b) =
     (case registry_render tutorialSteps (unregister k tutorialRefs) newValue newCallback s b of
        Inl e \<Rightarrow> Inl e
      | Inr b' \<Rightarrow> Inr (s, unregister k tutorialRefs, b'))"



text \<open>
  What the host may do to the registry, and what a regular run is.

  The host registers a handle under one index: \<open>register(k, h)\<close> is permitted when
  \<open>h\<close> is under no other index, and when \<open>h\<close> does not carry the elevated \<open>z-index\<close>
  unless \<open>k\<close> is the active step.

  A run is regular when the handler of Previous is not run at step 0 and the
  second effect runs after every change of the registry.
\<close>

definition permitted :: "bool \<Rightarrow> event \<Rightarrow> tour \<Rightarrow> bool" where
  "permitted regular ev x = (case x of (s, tutorialRefs, b) \<Rightarrow>
     (case ev of
        ClickPrevious \<Rightarrow> regular \<longrightarrow> step s \<noteq> 0
      | HostRegister k h newValue newCallback \<Rightarrow>
          Some h \<notin> set (unregister k tutorialRefs)
          \<and> (zIndex b h = ''50'' \<longrightarrow> k = step s)
          \<and> (regular \<longrightarrow> newValue)
      | HostUnregister k newValue newCallback \<Rightarrow> regular \<longrightarrow> newValue
      | _ \<Rightarrow> True))"

text \<open>
  The component is mounted on a page where no element carries the elevated
  \<open>z-index\<close> yet, with a registry that holds no handle under two indices.
  Afterwards permitted events happen in any order.
\<close>

inductive reachable :: "Step list \<Rightarrow> bool \<Rightarrow> tour \<Rightarrow> bool"
  for tutorialSteps :: "Step list" and regular :: bool where
  reach_mount:
    "\<lbrakk>\<forall>e. zIndex b0 e \<noteq> ''50''; distinct (filter (\<lambda>r. r \<noteq> None) tutorialRefs);
      mount tutorialSteps tutorialRefs show0 step0 b0 = Inr (s, b)\<rbrakk>
     \<Longrightarrow> reachable tutorialSteps regular (s, tutorialRefs, b)"
| reach_fire:
    "\<lbrakk>reachable tutorialSteps regular x; permitted regular ev x;
      fire tutorialSteps ev x = Inr x'\<rbrakk>
     \<Longrightarrow> reachable tutorialSteps regular x'"

subsection \<open>Sample inputs\<close>

text \<open>
  A catalog with the positions center, start, end, start, a registry with elements
  at steps 1 and 2, one with an element at step 0 as well, and a page on which
  nothing has been written yet.
\<close>

definition sampleSteps :: "Step list" where
  "sampleSteps =
     [\<lparr>title = ''Welcome'', description = '''', position = Center, action = None\<rparr>,
      \<lparr>title = ''Meal Plan Info'', description = '''', position = Start, action = None\<rparr>,
      \<lparr>title = ''Meal Queue'', description = '''', position = End, action = None\<rparr>,
      \<lparr>title = ''Results'', description = '''', position = Start, action = None\<rparr>]"

definition sampleRefs :: refs where
  "sampleRefs = [None, Some 11, Some 12, None]"


definition blankPage :: Browser where
  "blankPage =
     \<lparr>zIndex = (\<lambda>_. ''''),
      tooltipStyle = \<lparr>css_position = '''', css_transform = '''', css_order = ''''\<rparr>,
      scrollCalls = [], localStorage = Map.empty\<rparr>"

definition sampleState :: "int \<Rightarrow> TutorialState" where
  "sampleState i = \<lparr>step = i, showTutorial = True, showDetails = True, isNewUser = False\<rparr>"

subsection \<open>The invariant of the emphasis\<close>






section \<open>Properties\<close>

subsection \<open>Auxiliary facts\<close>

lemma sampleSteps_at:
  "at_index sampleSteps 0 = Some (sampleSteps ! 0)"
  "at_index sampleSteps 1 = Some (sampleSteps ! 1)"
  "at_index sampleSteps 2 = Some (sampleSteps ! 2)"
  "at_index sampleSteps 3 = Some (sampleSteps ! 3)"
  by (simp_all add: at_index_def sampleSteps_def)

lemma sampleRefs_at:
  "at_index sampleRefs 0 = Some None"
  "at_index sampleRefs 1 = Some (Some 11)"
  "at_index sampleRefs 2 = Some (Some 12)"
  "at_index sampleRefs 3 = Some None"
  by (simp_all add: at_index_def sampleRefs_def)

lemma settle_stable:
  "\<not> isNewUser s \<Longrightarrow>
   settle tutorialSteps tutorialRefs prev s b = commit tutorialSteps tutorialRefs prev s b"
  by (subst settle.simps)
    (auto simp: commit_def autoShowEffect_def split: option.splits if_splits sum.splits prod.splits)

lemma commit_mount_new:
  assumes "at_index ts i = Some st" and "at_index rs i = Some r"
  shows "\<exists>b'. commit ts rs None \<lparr>step = i, showTutorial = sh, showDetails = False, isNewUser = True\<rparr> b
     = Inr (\<lparr>step = i, showTutorial = True, showDetails = False, isNewUser = False\<rparr>, b')
     \<and> localStorage b' = (localStorage b)(''isNewUser'' \<mapsto> False)"
  using assms
  by (cases r)
     (auto simp: commit_def changed_def autoShowEffect_def positionEffect_def emphasize_def
      hideEffect_def resetPrevDiv_def setPersistentState_def)

lemma commit_storage:
  assumes "\<not> isNewUser s" and "commit ts rs prev s b = Inr (s', b')"
  shows "s' = s \<and> localStorage b' = localStorage b"
  using assms
  by (auto simp: commit_def changed_def autoShowEffect_def positionEffect_def emphasize_def
      hideEffect_def resetPrevDiv_def split: option.splits if_splits sum.splits prod.splits)

lemma commit_defined:
  assumes "at_index ts (step s) = Some st" and "at_index rs (step s) = Some r"
  shows "\<exists>s' b'. commit ts rs prev s b = Inr (s', b')"
  using assms
  by (cases r)
     (auto simp: commit_def changed_def autoShowEffect_def positionEffect_def emphasize_def
      hideEffect_def resetPrevDiv_def split: option.splits if_splits sum.splits prod.splits)

lemma mount_new_user:
  assumes "at_index ts i = Some st" and "at_index rs i = Some r"
    and "usePersistentState ''isNewUser'' True (localStorage b)"
  shows "\<exists>b'. mount ts rs sh i b
     = Inr (\<lparr>step = i, showTutorial = True, showDetails = False, isNewUser = False\<rparr>, b')
     \<and> localStorage b' = (localStorage b)(''isNewUser'' \<mapsto> False)"
proof -
  let ?s0 = "\<lparr>step = i, showTutorial = sh, showDetails = False, isNewUser = True\<rparr>"
  let ?s1 = "\<lparr>step = i, showTutorial = True, showDetails = False, isNewUser = False\<rparr>"
  from commit_mount_new [OF assms(1,2), of sh b] obtain b1 where
    c1: "commit ts rs None ?s0 b = Inr (?s1, b1)"
    and l1: "localStorage b1 = (localStorage b)(''isNewUser'' \<mapsto> False)"
    by blast
  from commit_defined [of ts ?s1 st rs r "Some ?s0" b1] assms(1,2) obtain s2 b2 where
    c2: "commit ts rs (Some ?s0) ?s1 b1 = Inr (s2, b2)"
    by auto
  from commit_storage [OF _ c2] have e2: "s2 = ?s1" and l2: "localStorage b2 = localStorage b1"
    by simp_all
  have "settle ts rs None ?s0 b = settle ts rs (Some ?s0) ?s1 b1"
    by (subst settle.simps) (simp add: c1)
  also have "\<dots> = Inr (?s1, b2)"
    using c2 e2 by (simp add: settle_stable)
  finally show ?thesis
    using assms(3) l1 l2 by (simp add: mount_def)
qed

lemma mount_old_user:
  assumes "at_index ts i = Some st" and "at_index rs i = Some r"
    and "\<not> usePersistentState ''isNewUser'' True (localStorage b)"
  shows "\<exists>b'. mount ts rs sh i b
     = Inr (\<lparr>step = i, showTutorial = sh, showDetails = False, isNewUser = False\<rparr>, b')
     \<and> localStorage b' = localStorage b"
proof -
  let ?s0 = "\<lparr>step = i, showTutorial = sh, showDetails = False, isNewUser = False\<rparr>"
  from commit_defined [of ts ?s0 st rs r None b] assms(1,2) obtain s2 b2 where
    c2: "commit ts rs None ?s0 b = Inr (s2, b2)"
    by auto
  from commit_storage [OF _ c2] have "s2 = ?s0" and "localStorage b2 = localStorage b"
    by simp_all
  with c2 assms(3) show ?thesis
    by (simp add: mount_def settle_stable)
qed

lemma foldl_count_center:
  "foldl (\<lambda>p c. p + (if position c = Center then 1 else 0)) (a::int) (xs :: Step list)
     = a + int (length (filter (\<lambda>c. position c = Center) xs))"
  by (induction xs arbitrary: a) auto

lemma inlineOrder_count:
  "inlineOrder ts i = 1 + i - int (length (filter (\<lambda>c. position c = Center) (slice0 ts i)))"
  by (simp add: inlineOrder_def foldl_count_center)

lemma slice0_take: "0 \<le> i \<Longrightarrow> slice0 xs i = take (nat i) xs"
  by (simp add: slice0_def)

lemma commit_showDetails:
  "commit ts rs prev s b = Inr (s', b') \<Longrightarrow> showDetails s' = showDetails s"
  by (auto simp: commit_def autoShowEffect_def split: option.splits if_splits sum.splits prod.splits)

lemma settle_showDetails:
  "settle ts rs prev s b = Inr (s', b') \<Longrightarrow> showDetails s' = showDetails s"
proof (induction ts rs prev s b rule: settle.induct)
  case (1 ts rs prev s b)
  from "1.prems" obtain s1 b1 where c: "commit ts rs prev s b = Inr (s1, b1)"
    by (subst (asm) settle.simps) (auto split: sum.splits)
  show ?case
  proof (cases "s1 = s")
    case True
    with c "1.prems" show ?thesis
      by (subst (asm) settle.simps) simp
  next
    case False
    with c "1.prems" have "settle ts rs (Some s) s1 b1 = Inr (s', b')"
      by (subst (asm) settle.simps) simp
    with "1.IH" [OF c refl False] have "showDetails s' = showDetails s1"
      by simp
    with commit_showDetails [OF c] show ?thesis
      by simp
  qed
qed

lemma rerender_showDetails:
  "r = Inr (s1, b1) \<Longrightarrow> rerender ts rs s r = Inr (s', b') \<Longrightarrow> showDetails s' = showDetails s1"
  by (auto simp: rerender_def dest: settle_showDetails split: if_splits)

lemma rerender_state:
  assumes "\<not> isNewUser s1" and "rerender ts rs s (Inr (s1, b1)) = Inr (s', b')"
  shows "s' = s1"
proof (cases "s1 = s")
  case True
  with assms(2) show ?thesis
    by (simp add: rerender_def)
next
  case False
  with assms have "commit ts rs (Some s) s1 b1 = Inr (s', b')"
    by (simp add: rerender_def settle_stable)
  with assms(1) show ?thesis
    by (simp add: commit_storage)
qed

lemma finish_like_close:
  assumes "step s + 1 = int (length tutorialSteps)" and "showTutorial s" and "\<not> isNewUser s"
  shows "rerender tutorialSteps tutorialRefs s (next_onClick tutorialSteps tutorialRefs s b)
       = rerender tutorialSteps tutorialRefs s (Inr (close_onClick s, b))"
proof -
  have ne: "s\<lparr>showTutorial := False\<rparr> \<noteq> s"
    using assms(2) by (cases s) auto
  show ?thesis
  proof (cases "at_index tutorialRefs (step s)")
    case None
    then show ?thesis
      using assms ne
      by (auto simp: rerender_def next_onClick_def close_onClick_def resetPrevDiv_def settle_stable
          commit_def changed_def positionEffect_def emphasize_def hideEffect_def
          split: option.splits)
  next
    case (Some r)
    then show ?thesis
      using assms ne
      by (cases r)
        (auto simp: rerender_def next_onClick_def close_onClick_def resetPrevDiv_def settle_stable
          commit_def changed_def positionEffect_def emphasize_def hideEffect_def
          split: option.splits)
  qed
qed



































subsection \<open>Auto-activation\<close>

text \<open>
  Claim C1. The tour shows itself once per installation. Take a mount at a step of
  the catalog whose registry entry exists (so that nothing throws), on any page
  \<open>b\<close> and with any value \<open>show0\<close> of the host's \<open>show\<close>. A flag that was never written
  reads true. If the flag reads true, the mount ends with \<open>show\<close> true and the flag
  written false. If it reads false, \<open>show\<close> is what the host gave and the store is
  as before. In both cases a later mount on a page with the store the first mount
  left, the host's \<open>show\<close> being false, ends with \<open>show\<close> false.
\<close>

theorem auto_activation_once:
  assumes "at_index tutorialSteps step0 = Some st" and "at_index tutorialRefs step0 = Some r"
  shows "\<exists>s b'. mount tutorialSteps tutorialRefs show0 step0 b = Inr (s, b')
     \<and> (localStorage b ''isNewUser'' = None \<longrightarrow> usePersistentState ''isNewUser'' True (localStorage b))
     \<and> (usePersistentState ''isNewUser'' True (localStorage b)
          \<longrightarrow> showTutorial s \<and> localStorage b' ''isNewUser'' = Some False)
     \<and> (\<not> usePersistentState ''isNewUser'' True (localStorage b)
          \<longrightarrow> showTutorial s = show0 \<and> localStorage b' = localStorage b)
     \<and> step s = step0
     \<and> (\<forall>b2. localStorage b2 = localStorage b' \<longrightarrow>
           (\<exists>s2 b2'. mount tutorialSteps tutorialRefs False step0 b2 = Inr (s2, b2')
              \<and> \<not> showTutorial s2 \<and> localStorage b2' = localStorage b'))"
proof (cases "usePersistentState ''isNewUser'' True (localStorage b)")
  case True
  from mount_new_user [OF assms True, of show0] obtain b' where
    m: "mount tutorialSteps tutorialRefs show0 step0 b
       = Inr (\<lparr>step = step0, showTutorial = True, showDetails = False, isNewUser = False\<rparr>, b')"
    and l: "localStorage b' = (localStorage b)(''isNewUser'' \<mapsto> False)"
    by blast
  have "\<exists>s2 b2'. mount tutorialSteps tutorialRefs False step0 b2 = Inr (s2, b2')
      \<and> \<not> showTutorial s2 \<and> localStorage b2' = localStorage b'"
    if "localStorage b2 = localStorage b'" for b2
    using mount_old_user [OF assms, of b2 False] that l
    by (auto simp: usePersistentState_def)
  with m l True show ?thesis
    by (simp add: usePersistentState_def)
next
  case False
  from mount_old_user [OF assms False, of show0] obtain b' where
    m: "mount tutorialSteps tutorialRefs show0 step0 b
       = Inr (\<lparr>step = step0, showTutorial = show0, showDetails = False, isNewUser = False\<rparr>, b')"
    and l: "localStorage b' = localStorage b"
    by blast
  have "\<exists>s2 b2'. mount tutorialSteps tutorialRefs False step0 b2 = Inr (s2, b2')
      \<and> \<not> showTutorial s2 \<and> localStorage b2' = localStorage b'"
    if "localStorage b2 = localStorage b'" for b2
    using mount_old_user [OF assms, of b2 False] that l False
    by auto
  with m l False show ?thesis
    by (auto simp: usePersistentState_def split: option.splits)
qed

theorem auto_activation_once_witness:
  "at_index sampleSteps 0 = Some (sampleSteps ! 0) \<and> at_index sampleRefs 0 = Some None
   \<and> localStorage blankPage ''isNewUser'' = None
   \<and> (\<exists>s b'. mount sampleSteps sampleRefs False 0 blankPage = Inr (s, b')
         \<and> showTutorial s \<and> step s = 0 \<and> localStorage b' ''isNewUser'' = Some False
         \<and> (\<exists>s2 b2'. mount sampleSteps sampleRefs False 0 b' = Inr (s2, b2') \<and> \<not> showTutorial s2))"
proof -
  have h1: "at_index sampleSteps 0 = Some (sampleSteps ! 0)"
    by (rule sampleSteps_at)
  have h2: "at_index sampleRefs 0 = Some None"
    by (rule sampleRefs_at)
  have h3: "localStorage blankPage ''isNewUser'' = None"
    by (simp add: blankPage_def)
  from auto_activation_once [OF h1 h2, of False blankPage] h3
  have "\<exists>s b'. mount sampleSteps sampleRefs False 0 blankPage = Inr (s, b')
         \<and> showTutorial s \<and> step s = 0 \<and> localStorage b' ''isNewUser'' = Some False
         \<and> (\<exists>s2 b2'. mount sampleSteps sampleRefs False 0 b' = Inr (s2, b2') \<and> \<not> showTutorial s2)"
    by fastforce
  with h1 h2 h3 show ?thesis
    by blast
qed

subsection \<open>The validation gate\<close>

text \<open>
  Claim C3. The gate is fail-open. For a step of the catalog: when no rule is found
  for its title the step is complete; the only rule is the one for
  \<open>Meal Plan Info\<close>, so every other title is complete, and for that title the
  result is the boolean \<open>areDetailsEntered\<close> the host supplies. The Next/Finish
  button is disabled exactly when the step is not complete.
\<close>

theorem validation_gate_fail_open:
  assumes "at_index tutorialSteps i = Some st"
  shows "(find (\<lambda>validation. fst validation = title st) (validations areDetailsEntered) = None
            \<longrightarrow> isStepComplete tutorialSteps i areDetailsEntered = Inr True)
       \<and> (title st \<noteq> ''Meal Plan Info'' \<longrightarrow> isStepComplete tutorialSteps i areDetailsEntered = Inr True)
       \<and> (title st = ''Meal Plan Info'' \<longrightarrow> isStepComplete tutorialSteps i areDetailsEntered = Inr areDetailsEntered)
       \<and> (\<exists>ok. isStepComplete tutorialSteps i areDetailsEntered = Inr ok
             \<and> next_disabled tutorialSteps i areDetailsEntered = Inr (\<not> ok))"
  using assms by (auto simp: isStepComplete_def next_disabled_def validations_def)

theorem validation_gate_fail_open_witness:
  "at_index sampleSteps 0 = Some (sampleSteps ! 0) \<and> at_index sampleSteps 1 = Some (sampleSteps ! 1)
   \<and> isStepComplete sampleSteps 0 False = Inr True
   \<and> isStepComplete sampleSteps 1 False = Inr False
   \<and> isStepComplete sampleSteps 1 True = Inr True
   \<and> next_disabled sampleSteps 0 False = Inr False
   \<and> next_disabled sampleSteps 1 False = Inr True"
  using validation_gate_fail_open [OF sampleSteps_at(1), of False]
    validation_gate_fail_open [OF sampleSteps_at(2), of False]
    validation_gate_fail_open [OF sampleSteps_at(2), of True]
    sampleSteps_at(1,2)
  by (auto simp: sampleSteps_def)

subsection \<open>The order of an inline tooltip\<close>

text \<open>
  Claim C5. For a step \<open>i\<close> of the catalog whose position is not center, the effect
  writes to the \<open>order\<close> of the tooltip the decimal text of \<open>1 + i\<close> minus the number
  of steps before \<open>i\<close> whose position is center. In a catalog with the positions
  center, start, end, start the numbers for the steps 1, 2, 3 are 1, 2, 3.
\<close>

theorem order_of_inline_tooltip:
  assumes "at_index tutorialSteps i = Some st" and "position st \<noteq> Center"
    and "at_index tutorialRefs i = Some r"
  shows "(\<exists>b'. positionEffect tutorialSteps tutorialRefs i b = Inr b' \<and>
           css_order (tooltipStyle b') = string_of_int (inlineOrder tutorialSteps i))
       \<and> inlineOrder tutorialSteps i =
           1 + i - int (length (filter (\<lambda>c. position c = Center) (take (nat i) tutorialSteps)))
       \<and> (map position tutorialSteps = [Center, Start, End, Start]
            \<longrightarrow> map (inlineOrder tutorialSteps) [1, 2, 3] = [1, 2, 3])"
proof -
  from assms(1) have "0 \<le> i"
    by (simp add: at_index_def split: if_splits)
  then have "inlineOrder tutorialSteps i =
      1 + i - int (length (filter (\<lambda>c. position c = Center) (take (nat i) tutorialSteps)))"
    by (simp add: inlineOrder_count slice0_take)
  moreover have "\<exists>b'. positionEffect tutorialSteps tutorialRefs i b = Inr b' \<and>
           css_order (tooltipStyle b') = string_of_int (inlineOrder tutorialSteps i)"
    using assms by (cases r) (simp_all add: positionEffect_def emphasize_def)
  moreover have "map (inlineOrder tutorialSteps) [1, 2, 3] = [1, 2, 3]"
    if "map position tutorialSteps = [Center, Start, End, Start]"
  proof -
    from that obtain a b c d where "tutorialSteps = [a, b, c, d]"
      and "position a = Center" "position b = Start" "position c = End" "position d = Start"
      by (auto simp: map_eq_Cons_conv)
    then show ?thesis
      by (simp add: inlineOrder_def slice0_def)
  qed
  ultimately show ?thesis
    by blast
qed

theorem order_of_inline_tooltip_witness:
  "at_index sampleSteps 1 = Some (sampleSteps ! 1) \<and> position (sampleSteps ! 1) \<noteq> Center
   \<and> at_index sampleRefs 1 = Some (Some 11)
   \<and> map (\<lambda>i. map_sum id (css_order \<circ> tooltipStyle) (positionEffect sampleSteps sampleRefs i blankPage))
       [1, 2, 3] = [Inr ''1'', Inr ''2'', Inr ''3'']
   \<and> map (inlineOrder sampleSteps) [1, 2, 3] = [1, 2, 3]"
  using order_of_inline_tooltip [OF sampleSteps_at(2) _ sampleRefs_at(2), of blankPage]
    order_of_inline_tooltip [OF sampleSteps_at(3) _ sampleRefs_at(3), of blankPage]
    order_of_inline_tooltip [OF sampleSteps_at(4) _ sampleRefs_at(4), of blankPage]
    sampleSteps_at(2) sampleRefs_at(2)
  by (auto simp: sampleSteps_def string_of_int_def digits.simps digit_def)

subsection \<open>Next and Finish\<close>

text \<open>
  Claim C2. At a step \<open>i\<close> of the catalog whose registry entry exists, the handler of
  the Next/Finish button returns. When \<open>i + 1\<close> is the length of the catalog it sets
  \<open>show\<close> to false and leaves the step, which is what the close button sets; when
  \<open>i + 1\<close> is smaller it adds one to the step and leaves \<open>show\<close>. The new step is
  again a step of the catalog, never its length. Once the auto-activation has run,
  the render and the effects that follow end in the state the handler has set.
  From a shown tour at the last step, the page and the state after the effects are
  those the close button leads to.
\<close>

theorem next_advances_or_finishes:
  assumes "0 \<le> step s" and "step s < int (length tutorialSteps)"
    and "at_index tutorialRefs (step s) = Some r"
  shows "\<exists>s' b'. next_onClick tutorialSteps tutorialRefs s b = Inr (s', b')
     \<and> (step s + 1 = int (length tutorialSteps) \<longrightarrow>
          \<not> showTutorial s' \<and> step s' = step s \<and> s' = close_onClick s)
     \<and> (step s + 1 < int (length tutorialSteps) \<longrightarrow>
          step s' = step s + 1 \<and> showTutorial s' = showTutorial s)
     \<and> 0 \<le> step s' \<and> step s' < int (length tutorialSteps)
     \<and> (\<not> isNewUser s \<longrightarrow>
          (\<forall>s'' b''. rerender tutorialSteps tutorialRefs s (Inr (s', b')) = Inr (s'', b'')
             \<longrightarrow> s'' = s'))
     \<and> (step s + 1 = int (length tutorialSteps) \<and> showTutorial s \<and> \<not> isNewUser s \<longrightarrow>
          rerender tutorialSteps tutorialRefs s (next_onClick tutorialSteps tutorialRefs s b)
            = rerender tutorialSteps tutorialRefs s (Inr (close_onClick s, b)))"
proof -
  have "\<exists>s' b'. next_onClick tutorialSteps tutorialRefs s b = Inr (s', b')
     \<and> (step s + 1 = int (length tutorialSteps) \<longrightarrow>
          \<not> showTutorial s' \<and> step s' = step s \<and> s' = close_onClick s)
     \<and> (step s + 1 < int (length tutorialSteps) \<longrightarrow>
          step s' = step s + 1 \<and> showTutorial s' = showTutorial s)
     \<and> 0 \<le> step s' \<and> step s' < int (length tutorialSteps)
     \<and> isNewUser s' = isNewUser s"
    using assms by (cases r) (auto simp: next_onClick_def resetPrevDiv_def close_onClick_def)
  then obtain s' b' where n: "next_onClick tutorialSteps tutorialRefs s b = Inr (s', b')"
    and a: "step s + 1 = int (length tutorialSteps) \<longrightarrow>
          \<not> showTutorial s' \<and> step s' = step s \<and> s' = close_onClick s"
    and c: "step s + 1 < int (length tutorialSteps) \<longrightarrow>
          step s' = step s + 1 \<and> showTutorial s' = showTutorial s"
    and d: "0 \<le> step s' \<and> step s' < int (length tutorialSteps)"
    and e: "isNewUser s' = isNewUser s"
    by blast
  have "s'' = s'"
    if "\<not> isNewUser s" and "rerender tutorialSteps tutorialRefs s (Inr (s', b')) = Inr (s'', b'')"
    for s'' b''
    using that e by (intro rerender_state [of s' tutorialSteps tutorialRefs s b' s'' b'']) simp_all
  with n a c d show ?thesis
    using finish_like_close [of s tutorialSteps tutorialRefs b] by blast
qed

theorem next_advances_or_finishes_witness:
  "0 \<le> step (sampleState 3) \<and> step (sampleState 3) < int (length sampleSteps)
   \<and> at_index sampleRefs (step (sampleState 3)) = Some None
   \<and> at_index sampleRefs (step (sampleState 1)) = Some (Some 11)
   \<and> map_sum id (\<lambda>x. (step (fst x), showTutorial (fst x)))
        (next_onClick sampleSteps sampleRefs (sampleState 3) blankPage) = Inr (3, False)
   \<and> map_sum id (\<lambda>x. (step (fst x), showTutorial (fst x)))
        (next_onClick sampleSteps sampleRefs (sampleState 1) blankPage) = Inr (2, True)
   \<and> rerender sampleSteps sampleRefs (sampleState 3)
        (next_onClick sampleSteps sampleRefs (sampleState 3) blankPage)
      = rerender sampleSteps sampleRefs (sampleState 3) (Inr (close_onClick (sampleState 3), blankPage))"
proof -
  have h3: "0 \<le> step (sampleState 3)" "step (sampleState 3) < int (length sampleSteps)"
    "at_index sampleRefs (step (sampleState 3)) = Some None"
    by (simp_all add: sampleState_def sampleSteps_def sampleRefs_at)
  have h1: "0 \<le> step (sampleState 1)" "step (sampleState 1) < int (length sampleSteps)"
    "at_index sampleRefs (step (sampleState 1)) = Some (Some 11)"
    by (simp_all add: sampleState_def sampleSteps_def sampleRefs_at)
  have l: "int (length sampleSteps) = 4"
    by (simp add: sampleSteps_def)
  have s: "step (sampleState 3) = 3" "step (sampleState 1) = 1" "showTutorial (sampleState 3)"
    "showTutorial (sampleState 1)" "\<not> isNewUser (sampleState 3)"
    by (simp_all add: sampleState_def)
  from next_advances_or_finishes [OF h3, of blankPage] next_advances_or_finishes [OF h1, of blankPage]
  show ?thesis
    using h3 h1 by (auto simp: l s)
qed

subsection \<open>Previous\<close>

text \<open>
  Claim C4. At a step whose registry entry exists, the handler of the Previous
  button returns. At step 0 the state is the one before; at a step above 0 the
  step is one less and \<open>show\<close> is the one before. Once the auto-activation has
  run, the render and the effects that follow end in the state the handler has set.
\<close>

theorem previous_steps_back:
  assumes "at_index tutorialRefs (step s) = Some r"
  shows "\<exists>s' b'. previous_onClick tutorialRefs s b = Inr (s', b')
     \<and> (step s = 0 \<longrightarrow> s' = s)
     \<and> (0 < step s \<longrightarrow> step s' = step s - 1 \<and> showTutorial s' = showTutorial s)
     \<and> (\<not> isNewUser s \<longrightarrow>
          (\<forall>s'' b''. rerender tutorialSteps tutorialRefs s (Inr (s', b')) = Inr (s'', b'')
             \<longrightarrow> s'' = s'))"
proof -
  have "\<exists>s' b'. previous_onClick tutorialRefs s b = Inr (s', b')
     \<and> (step s = 0 \<longrightarrow> s' = s)
     \<and> (0 < step s \<longrightarrow> step s' = step s - 1 \<and> showTutorial s' = showTutorial s)
     \<and> isNewUser s' = isNewUser s"
    using assms by (cases r) (auto simp: previous_onClick_def resetPrevDiv_def)
  then obtain s' b' where p: "previous_onClick tutorialRefs s b = Inr (s', b')"
    and a: "step s = 0 \<longrightarrow> s' = s"
    and c: "0 < step s \<longrightarrow> step s' = step s - 1 \<and> showTutorial s' = showTutorial s"
    and e: "isNewUser s' = isNewUser s"
    by blast
  have "s'' = s'"
    if "\<not> isNewUser s" and "rerender tutorialSteps tutorialRefs s (Inr (s', b')) = Inr (s'', b'')"
    for s'' b''
    using that e by (intro rerender_state [of s' tutorialSteps tutorialRefs s b' s'' b'']) simp_all
  with p a c show ?thesis
    by blast
qed

theorem previous_steps_back_witness:
  "at_index sampleRefs (step (sampleState 0)) = Some None
   \<and> at_index sampleRefs (step (sampleState 2)) = Some (Some 12)
   \<and> map_sum id fst (previous_onClick sampleRefs (sampleState 0) blankPage) = Inr (sampleState 0)
   \<and> map_sum id (\<lambda>x. (step (fst x), showTutorial (fst x)))
        (previous_onClick sampleRefs (sampleState 2) blankPage) = Inr (1, True)"
proof -
  have h0: "at_index sampleRefs (step (sampleState 0)) = Some None"
    by (simp add: sampleState_def sampleRefs_at)
  have h2: "at_index sampleRefs (step (sampleState 2)) = Some (Some 12)"
    by (simp add: sampleState_def sampleRefs_at)
  have s: "step (sampleState 0) = 0" "step (sampleState 2) = 2" "showTutorial (sampleState 2)"
    by (simp_all add: sampleState_def)
  from previous_steps_back [OF h0, of blankPage sampleSteps]
    previous_steps_back [OF h2, of blankPage sampleSteps]
  show ?thesis
    using h0 h2 by (auto simp: s)
qed

subsection \<open>The scroll target\<close>

text \<open>
  Claim C6 fails as stated. Step 1 of the sample catalog has the position start and
  an element in the registry, and the effect scrolls the tooltip, not the element.
\<close>

theorem scroll_target_counterexample:
  "at_index sampleSteps 1 = Some (sampleSteps ! 1) \<and> position (sampleSteps ! 1) = Start
   \<and> at_index sampleRefs 1 = Some (Some 11)
   \<and> map_sum id scrollCalls (positionEffect sampleSteps sampleRefs 1 blankPage)
       = Inr [\<lparr>target = TargetTooltip, behavior = ''smooth'', block = Start\<rparr>]
   \<and> map_sum id scrollCalls (positionEffect sampleSteps sampleRefs 1 blankPage)
       \<noteq> Inr [\<lparr>target = TargetDiv 11, behavior = ''smooth'', block = Start\<rparr>]"
  by (simp add: positionEffect_def emphasize_def scrollCall_def at_index_def sampleSteps_def
      sampleRefs_def blankPage_def)

text \<open>
  Claim C6, amended. For a step of the catalog whose position is start or end and
  whose registry entry exists, the effect makes one scroll request, aligned to the
  position of the step. Its target is the registered element when the position is
  end and the element is present; it is the tooltip when the position is start or
  the entry is \<open>null\<close>.
\<close>

theorem scroll_target_by_position:
  assumes "at_index tutorialSteps i = Some st" and "position st \<noteq> Center"
    and "at_index tutorialRefs i = Some r"
  shows "\<exists>b'. positionEffect tutorialSteps tutorialRefs i b = Inr b'
     \<and> scrollCalls b' = scrollCalls b @
         [\<lparr>target = (case r of Some d \<Rightarrow> if position st = End then TargetDiv d else TargetTooltip
                     | None \<Rightarrow> TargetTooltip),
           behavior = ''smooth'', block = position st\<rparr>]"
  using assms by (cases r) (auto simp: positionEffect_def emphasize_def scrollCall_def)

theorem scroll_target_by_position_witness:
  "at_index sampleSteps 2 = Some (sampleSteps ! 2) \<and> position (sampleSteps ! 2) \<noteq> Center
   \<and> at_index sampleRefs 2 = Some (Some 12)
   \<and> map_sum id scrollCalls (positionEffect sampleSteps sampleRefs 2 blankPage)
       = Inr [\<lparr>target = TargetDiv 12, behavior = ''smooth'', block = End\<rparr>]
   \<and> map_sum id scrollCalls (positionEffect sampleSteps sampleRefs 3 blankPage)
       = Inr [\<lparr>target = TargetTooltip, behavior = ''smooth'', block = Start\<rparr>]"
proof -
  have p: "position (sampleSteps ! 2) \<noteq> Center" "position (sampleSteps ! 3) \<noteq> Center"
    "position (sampleSteps ! 2) = End" "position (sampleSteps ! 3) = Start"
    by (simp_all add: sampleSteps_def)
  have e: "scrollCalls blankPage = []"
    by (simp add: blankPage_def)
  from scroll_target_by_position [OF sampleSteps_at(3) p(1) sampleRefs_at(3), of blankPage]
    scroll_target_by_position [OF sampleSteps_at(4) p(2) sampleRefs_at(4), of blankPage]
  show ?thesis
    using sampleSteps_at(3) sampleRefs_at(3) by (auto simp: p e)
qed

subsection \<open>The details toggle\<close>

text \<open>
  Claim C7 fails as stated. From a shown tour at step 1 of the four sample steps
  with the details expanded, Next leads to step 2, shown, with the details still
  expanded.
\<close>

theorem details_reset_counterexample:
  "map_sum id (\<lambda>x. (step (fst x), showTutorial (fst x), showDetails (fst x)))
     (rerender sampleSteps sampleRefs (sampleState 1)
        (next_onClick sampleSteps sampleRefs (sampleState 1) blankPage))
    = Inr (2, True, True)"
  by (simp add: rerender_def next_onClick_def resetPrevDiv_def settle_stable commit_def changed_def
      positionEffect_def emphasize_def hideEffect_def at_index_def sampleSteps_def sampleRefs_def
      sampleState_def)

text \<open>
  Claim C7, amended. At a step whose registry entry exists, the handlers of Next and
  of Previous return a state whose \<open>showDetails\<close> is the one before, and so is the
  \<open>showDetails\<close> of every state the following renders and effects end in: the
  toggle is left as it is when the step changes.
\<close>

theorem details_survive_navigation:
  assumes "at_index tutorialRefs (step s) = Some r"
  shows "(\<exists>s1 b1. next_onClick tutorialSteps tutorialRefs s b = Inr (s1, b1)
            \<and> showDetails s1 = showDetails s
            \<and> (\<forall>s' b'. rerender tutorialSteps tutorialRefs s (Inr (s1, b1)) = Inr (s', b')
                  \<longrightarrow> showDetails s' = showDetails s))
       \<and> (\<exists>s1 b1. previous_onClick tutorialRefs s b = Inr (s1, b1)
            \<and> showDetails s1 = showDetails s
            \<and> (\<forall>s' b'. rerender tutorialSteps tutorialRefs s (Inr (s1, b1)) = Inr (s', b')
                  \<longrightarrow> showDetails s' = showDetails s))"
proof -
  obtain s1 b1 where n: "next_onClick tutorialSteps tutorialRefs s b = Inr (s1, b1)"
    and n1: "showDetails s1 = showDetails s"
    using assms by (cases r) (auto simp: next_onClick_def resetPrevDiv_def)
  obtain s2 b2 where p: "previous_onClick tutorialRefs s b = Inr (s2, b2)"
    and p1: "showDetails s2 = showDetails s"
    using assms by (cases r) (auto simp: previous_onClick_def resetPrevDiv_def)
  show ?thesis
    using n n1 p p1 rerender_showDetails [OF refl, of tutorialSteps tutorialRefs s]
    by auto
qed

theorem details_survive_navigation_witness:
  "at_index sampleRefs (step (sampleState 1)) = Some (Some 11)
   \<and> showDetails (sampleState 1)
   \<and> map_sum id (showDetails \<circ> fst) (next_onClick sampleSteps sampleRefs (sampleState 1) blankPage)
       = Inr True
   \<and> map_sum id (showDetails \<circ> fst) (previous_onClick sampleRefs (sampleState 1) blankPage)
       = Inr True"
proof -
  have h: "at_index sampleRefs (step (sampleState 1)) = Some (Some 11)"
    by (simp add: sampleState_def sampleRefs_at)
  have d: "showDetails (sampleState 1)"
    by (simp add: sampleState_def)
  from details_survive_navigation [OF h, of sampleSteps blankPage]
  show ?thesis
    using h d by auto
qed

subsection \<open>Emphasis\<close>




text \<open>
  Claim C9. Where the registry entry of a step is \<open>null\<close>, clearing and applying the
  emphasis return without an error and leave every \<open>z-index\<close> as it is; so does the
  effect that clears the emphasis of a hidden tour, which leaves the whole page as
  it is, and the effect that positions the tooltip, at a step of the catalog.
\<close>

theorem absent_handle_is_skipped:
  assumes "at_index tutorialRefs i = Some None"
  shows "resetPrevDiv tutorialRefs i z = Inr z
     \<and> emphasize tutorialRefs i z = Inr (None, z)
     \<and> (step s = i \<longrightarrow> hideEffect tutorialRefs s b = Inr b)
     \<and> (\<forall>st. at_index tutorialSteps i = Some st \<longrightarrow>
          (\<exists>b'. positionEffect tutorialSteps tutorialRefs i b = Inr b' \<and> zIndex b' = zIndex b))"
  using assms by (auto simp: resetPrevDiv_def emphasize_def hideEffect_def positionEffect_def)

theorem absent_handle_is_skipped_witness:
  "at_index sampleRefs 0 = Some None
   \<and> map_sum id (\<lambda>z. z 11) (resetPrevDiv sampleRefs 0 (zIndex blankPage)) = Inr ''''
   \<and> map_sum id fst (emphasize sampleRefs 0 (zIndex blankPage)) = Inr None
   \<and> hideEffect sampleRefs (sampleState 0) blankPage = Inr blankPage
   \<and> map_sum id (\<lambda>b'. zIndex b' 11) (positionEffect sampleSteps sampleRefs 0 blankPage) = Inr ''''"
proof -
  have s: "step (sampleState 0) = 0"
    by (simp add: sampleState_def)
  have z: "zIndex blankPage 11 = ''''"
    by (simp add: blankPage_def)
  from absent_handle_is_skipped [OF sampleRefs_at(1), of "zIndex blankPage" "sampleState 0" blankPage sampleSteps]
  show ?thesis
    using sampleRefs_at(1) sampleSteps_at(1) by (auto simp: s z)
qed

text \<open>
  Claim C10. At step 0 the handler of the Previous button runs \<open>resetPrevDiv\<close> before
  it looks at the step: the element registered at step 0, when there is one, gets
  the baseline \<open>z-index\<close>, the state is the one before, and no render follows.
\<close>

theorem previous_at_first_step_clears_emphasis:
  assumes "step s = 0" and "at_index tutorialRefs 0 = Some r"
  shows "previous_onClick tutorialRefs s b
       = Inr (s, b\<lparr>zIndex := (case r of Some d \<Rightarrow> (zIndex b)(d := ''0'') | None \<Rightarrow> zIndex b)\<rparr>)
     \<and> rerender tutorialSteps tutorialRefs s (previous_onClick tutorialRefs s b)
       = previous_onClick tutorialRefs s b"
  using assms by (cases r) (auto simp: previous_onClick_def resetPrevDiv_def rerender_def)

theorem previous_at_first_step_clears_emphasis_witness:
  "step (sampleState 0) = 0 \<and> at_index [Some 10] 0 = Some (Some (10::nat))
   \<and> zIndex (blankPage\<lparr>zIndex := (zIndex blankPage)(10 := ''50'')\<rparr>) 10 = ''50''
   \<and> map_sum id (\<lambda>x. (step (fst x), showTutorial (fst x), zIndex (snd x) 10))
        (previous_onClick [Some 10] (sampleState 0)
           (blankPage\<lparr>zIndex := (zIndex blankPage)(10 := ''50'')\<rparr>))
      = Inr (0, True, ''0'')"
proof -
  have h: "step (sampleState 0) = 0" "at_index [Some 10] 0 = Some (Some (10::nat))"
    by (simp_all add: sampleState_def at_index_def)
  have s: "showTutorial (sampleState 0)"
    by (simp add: sampleState_def)
  from previous_at_first_step_clears_emphasis
    [OF h, of "blankPage\<lparr>zIndex := (zIndex blankPage)(10 := ''50'')\<rparr>" sampleSteps]
  show ?thesis
    using h s by simp
qed

end
